theory Spec2Isabelle
  imports Complex_Main "HOL-Library.Sublist"
begin

section \<open>Python values used by \<open>duplipy/replication.py\<close>\<close>

text \<open>
  A Python \<open>str\<close> is a sequence of Unicode code points. It is modelled as the list of
  its code points, so that \<open>str.split()\<close> can use Python's own notion of whitespace.
  \<open>str_of\<close> turns an ASCII literal of the theory into such a string.
\<close>

type_synonym pystr = "nat list"

definition str_of :: "string \<Rightarrow> pystr" where
  "str_of s = map of_char s"

text \<open>
  The code points for which \<open>str.isspace()\<close> holds, which are the separators of
  \<open>str.split()\<close> without arguments: U+0009..U+000D, U+001C..U+0020, U+0085, U+00A0,
  U+1680, U+2000..U+200A, U+2028, U+2029, U+202F, U+205F and U+3000.
\<close>

definition py_isspace :: "nat \<Rightarrow> bool" where
  "py_isspace c =
     ((9 \<le> c \<and> c \<le> 13) \<or> (28 \<le> c \<and> c \<le> 32) \<or> c = 133 \<or> c = 160 \<or> c = 5760
      \<or> (8192 \<le> c \<and> c \<le> 8202) \<or> c = 8232 \<or> c = 8233 \<or> c = 8239 \<or> c = 8287
      \<or> c = 12288)"

text \<open>
  \<open>text.split()\<close>: runs of whitespace separate the tokens and no token is empty.
  \<open>cur\<close> is the token being read.
\<close>

fun split_from :: "pystr \<Rightarrow> pystr \<Rightarrow> pystr list" where
  "split_from cur [] = (if cur = [] then [] else [cur])"
| "split_from cur (c # cs) =
     (if py_isspace c then (if cur = [] then split_from [] cs else cur # split_from [] cs)
      else split_from (cur @ [c]) cs)"

definition py_split :: "pystr \<Rightarrow> pystr list" where
  "py_split text = split_from [] text"

text \<open>\<open>' '.join(tokens)\<close>: one space (U+0020) between neighbours.\<close>

fun join_spaces :: "pystr list \<Rightarrow> pystr" where
  "join_spaces [] = []"
| "join_spaces [t] = t"
| "join_spaces (t # u # ts) = t @ [32] @ join_spaces (u # ts)"





text \<open>
  The exceptions the module meets, each with its message. All of them are subclasses of
  \<open>Exception\<close>, so every \<open>except Exception\<close> catches them.
\<close>

datatype exn =
    ValueError string
  | TypeError string
  | IndexError string
  | OverflowError string
  | UnicodeEncodeError string
  | DecompressionBombError string
  | OtherError string

text \<open>
  \<open>xs.pop(i)\<close>: a negative index counts from the end, an index out of range raises
  IndexError; the result is the list without that element.
\<close>

definition list_pop :: "'a list \<Rightarrow> int \<Rightarrow> exn + 'a list" where
  "list_pop xs i =
     (let n = int (length xs); j = (if i < 0 then i + n else i)
      in if 0 \<le> j \<and> j < n then Inr (take (nat j) xs @ drop (Suc (nat j)) xs)
         else Inl (IndexError ''pop index out of range''))"

section \<open>The world outside the module\<close>

text \<open>
  What the functions print. The text of a message is fixed by its constructor; an error
  message carries the exception whose \<open>str(e)\<close> the code formats into it, the progress
  line the three numbers it shows.
\<close>

datatype message =
    WordReplacementError exn
  | TextAugmentationError exn
  | TextFileLoadingError exn
  | TextFileAugmentationError exn
  | WordDeletionError exn
  | SynonymInsertionError exn
  | ParaphrasingError exn
  | ProgressLine nat nat rat
  | ClearProgressLine
  | AugmentationComplete

text \<open>
  The state the functions read and change: the raw draws the \<open>random\<close> module will make
  next, the readings \<open>time.time()\<close> will return next, what has been printed, and how
  standard output will behave: \<open>stdout_faults w i line\<close> is the exception that the
  \<open>i\<close>-th \<open>print\<close> from now raises when it is given \<open>line\<close>, if it raises (a closed
  stream raises ValueError on every line, a stream that cannot encode a line raises
  UnicodeEncodeError on it).
\<close>

record world =
  rng :: "nat \<Rightarrow> nat"
  clock :: "nat \<Rightarrow> rat"
  stdout_faults :: "nat \<Rightarrow> message \<Rightarrow> exn option"
  stdout :: "message list"

text \<open>No \<open>print\<close> will ever raise.\<close>

definition stdout_healthy :: "world \<Rightarrow> bool" where
  "stdout_healthy w = (\<forall>i line. stdout_faults w i line = None)"

text \<open>\<open>print(line)\<close>: raises what standard output raises on the line, or appends it.\<close>

definition print :: "message \<Rightarrow> world \<Rightarrow> (exn + unit) \<times> world" where
  "print line w =
     (case stdout_faults w 0 line of
        Some err \<Rightarrow> (Inl err, w\<lparr>stdout_faults := (\<lambda>i. stdout_faults w (Suc i))\<rparr>)
      | None \<Rightarrow>
          (Inr (), w\<lparr>stdout_faults := (\<lambda>i. stdout_faults w (Suc i)),
                     stdout := stdout w @ [line]\<rparr>))"

text \<open>
  The body of the module's handlers, \<open>print(...)\<close> followed by \<open>return x\<close>: an exception of
  the \<open>print\<close> leaves the handler and the function.
\<close>

definition print_and_return :: "message \<Rightarrow> 'a \<Rightarrow> world \<Rightarrow> (exn + 'a) \<times> world" where
  "print_and_return line x w =
     (case print line w of
        (Inl err, w') \<Rightarrow> (Inl err, w')
      | (Inr u, w') \<Rightarrow> (Inr x, w'))"

definition time_time :: "world \<Rightarrow> rat \<times> world" where
  "time_time w = (clock w 0, w\<lparr>clock := (\<lambda>i. clock w (Suc i))\<rparr>)"

definition next_draw :: "world \<Rightarrow> nat \<times> world" where
  "next_draw w = (rng w 0, w\<lparr>rng := (\<lambda>i. rng w (Suc i))\<rparr>)"

text \<open>
  The \<open>random\<close> module, each call consuming one raw draw \<open>d\<close>:
  \<open>random.random()\<close> is a multiple of \<open>2^-53\<close> in \<open>[0, 1)\<close>;
  \<open>random.randint(a, b)\<close> is \<open>a + d mod (b - a + 1)\<close> and raises ValueError on an empty
  range; \<open>random.choice(xs)\<close> is \<open>xs[d mod len(xs)]\<close> and raises IndexError on an empty
  sequence. A raw draw that is uniform on a multiple of the range gives a uniform result.
\<close>

definition random_random :: "world \<Rightarrow> rat \<times> world" where
  "random_random w =
     (case next_draw w of (d, w') \<Rightarrow> (of_nat (d mod 2 ^ 53) / 2 ^ 53, w'))"

definition random_randint :: "int \<Rightarrow> int \<Rightarrow> world \<Rightarrow> (exn + int) \<times> world" where
  "random_randint a b w =
     (if b < a then (Inl (ValueError ''empty range for randrange()''), w)
      else case next_draw w of (d, w') \<Rightarrow> (Inr (a + int (d mod nat (b - a + 1))), w'))"

definition random_choice :: "'a list \<Rightarrow> world \<Rightarrow> (exn + 'a) \<times> world" where
  "random_choice xs w =
     (if xs = [] then (Inl (IndexError ''Cannot choose from an empty sequence''), w)
      else case next_draw w of (d, w') \<Rightarrow> (Inr (xs ! (d mod length xs)), w'))"

text \<open>
  The external collaborators, which the repository calls and does not implement. Each
  may raise: \<open>wordnet.synsets(word)\<close> with the lemma names of every synset,
  \<open>nltk.word_tokenize\<close>, \<open>nltk.pos_tag\<close>, and reading a file with \<open>open(path).read()\<close>.
\<close>

record env =
  wordnet_synsets :: "pystr \<Rightarrow> exn + pystr list list"
  word_tokenize :: "pystr \<Rightarrow> exn + pystr list"
  pos_tag :: "pystr list \<Rightarrow> exn + (pystr \<times> pystr) list"
  read_file :: "pystr \<Rightarrow> exn + pystr"

text \<open>
  In every result below \<open>Inr\<close> is a value returned to the caller and \<open>Inl\<close> an exception
  that reaches the caller.
\<close>

section \<open>Synonym substitution\<close>

text \<open>
  \<open>replace_word_with_synonym(word)\<close>: the lemma names of all synsets are collected in
  order; a non-empty collection gives \<open>random.choice\<close> of it, an empty one the word. Any
  exception is printed and the word returned.
\<close>

definition replace_word_with_synonym :: "env \<Rightarrow> pystr \<Rightarrow> world \<Rightarrow> (exn + pystr) \<times> world" where
  "replace_word_with_synonym e word w =
     (case wordnet_synsets e word of
        Inl err \<Rightarrow> print_and_return (WordReplacementError err) word w
      | Inr synsets \<Rightarrow>
          (let synonyms = concat synsets in
           if synonyms \<noteq> [] then
             (case random_choice synonyms w of
                (Inl err, w') \<Rightarrow> print_and_return (WordReplacementError err) word w'
              | (Inr synonym, w') \<Rightarrow> (Inr synonym, w'))
           else (Inr word, w)))"

section \<open>The augmentation pipeline\<close>

text \<open>
  The progress report of lines 99 to 104: the clock is read, a zero elapsed time is
  replaced by \<open>1e-6\<close>, and the rate is printed with the two counters.
\<close>

definition report_progress :: "nat \<Rightarrow> nat \<Rightarrow> rat \<Rightarrow> world \<Rightarrow> (exn + unit) \<times> world" where
  "report_progress processed_tokens num_tokens start_time w =
     (case time_time w of
        (now, w1) \<Rightarrow>
          (let elapsed = now - start_time;
               elapsed_time = (if elapsed = 0 then 1 / 1000000 else elapsed);
               tokens_per_sec = of_nat processed_tokens / elapsed_time
           in print (ProgressLine processed_tokens num_tokens tokens_per_sec) w1))"

text \<open>
  The inner loop, \<open>for token in tokens\<close>: the tokens still to visit, the
  \<open>augmented_tokens\<close> built so far and the running \<open>processed_tokens\<close>. An exception
  ends the loop.
\<close>

fun augment_tokens ::
  "env \<Rightarrow> rat \<Rightarrow> bool \<Rightarrow> nat \<Rightarrow> rat \<Rightarrow> pystr list \<Rightarrow> pystr list \<Rightarrow> nat \<Rightarrow> world
     \<Rightarrow> (exn + pystr list \<times> nat) \<times> world" where
  "augment_tokens e probability progress num_tokens start_time [] augmented_tokens
       processed_tokens w = (Inr (augmented_tokens, processed_tokens), w)"
| "augment_tokens e probability progress num_tokens start_time (token # rest) augmented_tokens
       processed_tokens w =
     (case random_random w of
        (r, w1) \<Rightarrow>
          (case (if r < probability then replace_word_with_synonym e token w1
                 else (Inr token, w1)) of
             (Inl err, w2) \<Rightarrow> (Inl err, w2)
           | (Inr new_token, w2) \<Rightarrow>
               (case (if progress
                      then report_progress (processed_tokens + 1) num_tokens start_time w2
                      else (Inr (), w2)) of
                  (Inl err, w3) \<Rightarrow> (Inl err, w3)
                | (Inr u, w3) \<Rightarrow>
                    augment_tokens e probability progress num_tokens start_time rest
                      (augmented_tokens @ [new_token]) (processed_tokens + 1) w3)))"

text \<open>
  The outer loop, \<open>for _ in range(augmentation_factor)\<close>, by the number of passes left:
  each pass appends the join of its tokens to \<open>augmented_text\<close>.
\<close>

fun augment_passes ::
  "env \<Rightarrow> rat \<Rightarrow> bool \<Rightarrow> pystr list \<Rightarrow> rat \<Rightarrow> nat \<Rightarrow> pystr list \<Rightarrow> nat \<Rightarrow> world
     \<Rightarrow> (exn + pystr list) \<times> world" where
  "augment_passes e probability progress tokens start_time 0 augmented_text
       processed_tokens w = (Inr augmented_text, w)"
| "augment_passes e probability progress tokens start_time (Suc k) augmented_text
       processed_tokens w =
     (case augment_tokens e probability progress (length tokens) start_time tokens []
             processed_tokens w of
        (Inl err, w1) \<Rightarrow> (Inl err, w1)
      | (Inr (augmented_tokens, processed_tokens'), w1) \<Rightarrow>
          augment_passes e probability progress tokens start_time k
            (augmented_text @ [join_spaces augmented_tokens]) processed_tokens' w1)"

text \<open>
  The body of the \<open>try\<close> of \<open>augment_text_with_synonyms\<close> (lines 77 to 111), the two
  prints of the completion message included. \<open>range(n)\<close> is empty for a negative \<open>n\<close>.
\<close>

definition augment_try ::
  "env \<Rightarrow> pystr \<Rightarrow> int \<Rightarrow> rat option \<Rightarrow> bool \<Rightarrow> world \<Rightarrow> (exn + pystr list) \<times> world" where
  "augment_try e text augmentation_factor probability progress w =
     (case probability of
        None \<Rightarrow>
          (Inl (ValueError
             ''Probability value cannot be of NoneType. Choose a float from 0 to 1''), w)
      | Some p \<Rightarrow>
          (let tokens = py_split text in
           case time_time w of
             (start_time, w1) \<Rightarrow>
               (case augment_passes e p progress tokens start_time (nat augmentation_factor)
                       [] 0 w1 of
                  (Inl err, w2) \<Rightarrow> (Inl err, w2)
                | (Inr augmented_text, w2) \<Rightarrow>
                    (if progress then
                       (case print ClearProgressLine w2 of
                          (Inl err, w3) \<Rightarrow> (Inl err, w3)
                        | (Inr u, w3) \<Rightarrow>
                            print_and_return AugmentationComplete augmented_text w3)
                     else (Inr augmented_text, w2)))))"

text \<open>
  \<open>augment_text_with_synonyms\<close>: the \<open>except Exception\<close> of lines 113 to 115 prints the
  exception and returns the empty list.
\<close>

definition augment_text_with_synonyms ::
  "env \<Rightarrow> pystr \<Rightarrow> int \<Rightarrow> rat option \<Rightarrow> bool \<Rightarrow> world \<Rightarrow> (exn + pystr list) \<times> world" where
  "augment_text_with_synonyms e text augmentation_factor probability progress w =
     (case augment_try e text augmentation_factor probability progress w of
        (Inl err, w') \<Rightarrow> print_and_return (TextAugmentationError err) [] w'
      | (Inr augmented_text, w') \<Rightarrow> (Inr augmented_text, w'))"

definition load_text_file :: "env \<Rightarrow> pystr \<Rightarrow> world \<Rightarrow> (exn + pystr) \<times> world" where
  "load_text_file e file_path w =
     (case read_file e file_path of
        Inl err \<Rightarrow> print_and_return (TextFileLoadingError err) [] w
      | Inr text \<Rightarrow> (Inr text, w))"

text \<open>
  \<open>augment_file_with_synonyms\<close>: an exception of either call in its \<open>try\<close> is printed by
  the handler of lines 154 to 156, which returns the empty list.
\<close>

definition augment_file_with_synonyms ::
  "env \<Rightarrow> pystr \<Rightarrow> int \<Rightarrow> rat option \<Rightarrow> bool \<Rightarrow> world \<Rightarrow> (exn + pystr list) \<times> world" where
  "augment_file_with_synonyms e file_path augmentation_factor probability progress w =
     (case load_text_file e file_path w of
        (Inl err, w1) \<Rightarrow> print_and_return (TextFileAugmentationError err) [] w1
      | (Inr text, w1) \<Rightarrow>
          (case augment_text_with_synonyms e text augmentation_factor probability progress w1 of
             (Inl err, w2) \<Rightarrow> print_and_return (TextFileAugmentationError err) [] w2
           | (Inr augmented_text, w2) \<Rightarrow> (Inr augmented_text, w2)))"

section \<open>Text editing operations and the paraphraser\<close>

text \<open>
  \<open>delete_random_word\<close>: with more than one token, the token at index
  \<open>random.randint(0, len(words) - 1)\<close> is popped; the tokens are joined. An exception is
  printed and the text returned.
\<close>

definition delete_random_word :: "env \<Rightarrow> pystr \<Rightarrow> world \<Rightarrow> (exn + pystr) \<times> world" where
  "delete_random_word e text w =
     (case word_tokenize e text of
        Inl err \<Rightarrow> print_and_return (WordDeletionError err) text w
      | Inr words \<Rightarrow>
          (if length words > 1 then
             (case random_randint 0 (int (length words) - 1) w of
                (Inl err, w1) \<Rightarrow> print_and_return (WordDeletionError err) text w1
              | (Inr i, w1) \<Rightarrow>
                  (case list_pop words i of
                     Inl err \<Rightarrow> print_and_return (WordDeletionError err) text w1
                   | Inr words' \<Rightarrow> (Inr (join_spaces words'), w1)))
           else (Inr (join_spaces words), w)))"




section \<open>Image operations\<close>







section \<open>Shuffling\<close>

text \<open>
  Line 28 is \<open>import tqdm\<close>, which binds the name \<open>tqdm\<close> to the module object; the class is
  \<open>tqdm.tqdm\<close>. Calling a module object raises TypeError; calling the class makes a
  progress bar.
\<close>

datatype pyobject = ModuleObject string | TqdmClass

record progress_bar =
  bar_total :: nat
  bar_n :: nat

definition tqdm :: pyobject where
  "tqdm = ModuleObject ''tqdm''"

fun call_object :: "pyobject \<Rightarrow> nat \<Rightarrow> exn + progress_bar" where
  "call_object (ModuleObject name) n = Inl (TypeError ''module object is not callable'')"
| "call_object TqdmClass n = Inr \<lparr>bar_total = n, bar_n = 0\<rparr>"

text \<open>
  \<open>random.sample(population, k)\<close> on its pool path, which it takes whenever \<open>k\<close> is the
  length of the population: the chosen slot is refilled with the last element of the pool.
\<close>

fun sample_pool :: "nat \<Rightarrow> 'a list \<Rightarrow> world \<Rightarrow> 'a list \<times> world" where
  "sample_pool 0 pool w = ([], w)"
| "sample_pool (Suc k) pool w =
     (case next_draw w of
        (d, w1) \<Rightarrow>
          (let j = d mod length pool in
           case sample_pool k (butlast (pool[j := last pool])) w1 of
             (chosen, w2) \<Rightarrow> (pool ! j # chosen, w2)))"

definition random_sample :: "'a list \<Rightarrow> nat \<Rightarrow> world \<Rightarrow> (exn + 'a list) \<times> world" where
  "random_sample population k w =
     (if length population < k
      then (Inl (ValueError ''Sample larger than population or is negative''), w)
      else case sample_pool k population w of (chosen, w1) \<Rightarrow> (Inr chosen, w1))"

fun shuffle_sentences ::
  "pystr list \<Rightarrow> pystr list \<Rightarrow> progress_bar \<Rightarrow> world \<Rightarrow> (exn + pystr list) \<times> world" where
  "shuffle_sentences [] shuffled_text pbar w = (Inr shuffled_text, w)"
| "shuffle_sentences (sentence # rest) shuffled_text pbar w =
     (let words = py_split sentence in
      case random_sample words (length words) w of
        (Inl err, w1) \<Rightarrow> (Inl err, w1)
      | (Inr shuffled_words, w1) \<Rightarrow>
          shuffle_sentences rest (shuffled_text @ [join_spaces shuffled_words])
            (pbar\<lparr>bar_n := bar_n pbar + 1\<rparr>) w1)"

definition shuffle_words :: "pystr list \<Rightarrow> world \<Rightarrow> (exn + pystr list) \<times> world" where
  "shuffle_words text w =
     (case call_object tqdm (length text) of
        Inl err \<Rightarrow> (Inl err, w)
      | Inr pbar \<Rightarrow> shuffle_sentences text [] pbar w)"

section \<open>A small environment for concrete runs\<close>

text \<open>
  A lexicon of three entries (one of them failing), the tokenizer and the tagger on texts
  of plain words separated by blanks, where \<open>nltk.word_tokenize\<close> agrees with
  \<open>str.split\<close>, and a file system with one file.
\<close>

definition demo_synsets :: "pystr \<Rightarrow> exn + pystr list list" where
  "demo_synsets word =
     (if word = str_of ''happy''
      then Inr [[str_of ''happy'', str_of ''felicitous''], [str_of ''glad'', str_of ''happy'']]
      else if word = str_of ''cat'' then Inr [[str_of ''cat'', str_of ''kitty'']]
      else if word = str_of ''boom'' then Inl (OtherError ''wordnet corpus not loaded'')
      else Inr [])"

definition demo_tag :: "pystr \<Rightarrow> pystr" where
  "demo_tag token =
     (if token = str_of ''the'' then str_of ''DT''
      else if token = str_of ''happy'' then str_of ''JJ''
      else if token = str_of ''purrs'' then str_of ''VBZ''
      else if token = str_of ''loudly'' then str_of ''RB''
      else str_of ''NN'')"

definition demo_env :: env where
  "demo_env =
     \<lparr>wordnet_synsets = demo_synsets,
      word_tokenize = (\<lambda>text. Inr (py_split text)),
      pos_tag = (\<lambda>tokens. Inr (map (\<lambda>t. (t, demo_tag t)) tokens)),
      read_file = (\<lambda>path. if path = str_of ''corpus.txt'' then Inr (str_of ''the happy cat'')
                          else Inl (OtherError ''No such file or directory''))\<rparr>"

text \<open>
  Four worlds with the same draws and clock: one whose standard output works, one whose
  standard output is closed, one whose standard output fails once and then works, and one
  whose standard output cannot encode the message of \<open>load_text_file\<close>, which quotes the
  path, and prints everything else.
\<close>

definition demo_world :: world where
  "demo_world =
     \<lparr>rng = (\<lambda>i. i * 3002399751580331), clock = (\<lambda>i. of_nat i),
      stdout_faults = (\<lambda>i line. None), stdout = []\<rparr>"

definition closed_stdout_world :: world where
  "closed_stdout_world =
     demo_world\<lparr>stdout_faults := (\<lambda>i line. Some (ValueError ''I/O operation on closed file''))\<rparr>"

definition failing_once_world :: world where
  "failing_once_world =
     demo_world\<lparr>stdout_faults :=
       (\<lambda>i line. if i = 0 then Some (OtherError ''No space left on device'') else None)\<rparr>"

definition ascii_stdout_world :: world where
  "ascii_stdout_world =
     demo_world\<lparr>stdout_faults :=
       (\<lambda>i line. case line of
                    TextFileLoadingError err \<Rightarrow>
                      Some (UnicodeEncodeError ''ascii codec cannot encode character'')
                  | _ \<Rightarrow> None)\<rparr>"



section \<open>Printing and the random source\<close>

text \<open>
  On a standard output that never fails, a \<open>print\<close> returns, leaves the output as sound as
  it was and does not touch the random draws.
\<close>

lemma print_healthy:
  assumes "stdout_healthy w"
  shows "fst (print line w) = Inr ()"
    and "stdout_healthy (snd (print line w))"
    and "rng (snd (print line w)) = rng w"
  using assms by (simp_all add: print_def stdout_healthy_def)

lemma print_and_return_healthy:
  assumes "stdout_healthy w"
  shows "fst (print_and_return line x w) = Inr x"
    and "stdout_healthy (snd (print_and_return line x w))"
    and "rng (snd (print_and_return line x w)) = rng w"
  using assms by (simp_all add: print_and_return_def print_def stdout_healthy_def)


lemma report_progress_healthy:
  assumes "stdout_healthy w"
  shows "fst (report_progress processed_tokens num_tokens start_time w) = Inr ()"
    and "stdout_healthy (snd (report_progress processed_tokens num_tokens start_time w))"
    and "rng (snd (report_progress processed_tokens num_tokens start_time w)) = rng w"
  using assms
  by (simp_all add: report_progress_def time_time_def print_def stdout_healthy_def Let_def)

lemma random_random_world:
  "stdout_healthy (snd (random_random w)) = stdout_healthy w"
  "rng (snd (random_random w)) = (\<lambda>i. rng w (Suc i))"
  by (simp_all add: random_random_def next_draw_def stdout_healthy_def)

lemma random_random_nonneg: "0 \<le> fst (random_random w)"
  by (simp add: random_random_def next_draw_def)

lemma random_random_less_one: "fst (random_random w) < 1"
  by (simp add: random_random_def next_draw_def)

section \<open>Synonym substitution returns a listed synonym\<close>

lemma replace_word_with_synonym_found:
  assumes "wordnet_synsets e word = Inr synsets"
  shows "replace_word_with_synonym e word w =
           (if concat synsets = [] then (Inr word, w)
            else (Inr (concat synsets ! (rng w 0 mod length (concat synsets))),
                  w\<lparr>rng := (\<lambda>i. rng w (Suc i))\<rparr>))"
  using assms
  by (simp add: replace_word_with_synonym_def random_choice_def next_draw_def Let_def
      del: concat_eq_Nil_conv)

lemma replace_word_with_synonym_failed:
  assumes "wordnet_synsets e word = Inl err"
  shows "replace_word_with_synonym e word w = print_and_return (WordReplacementError err) word w"
  using assms by (simp add: replace_word_with_synonym_def)

lemma replace_word_with_synonym_healthy:
  assumes "stdout_healthy w"
  shows "fst (replace_word_with_synonym e word w) =
           Inr (case wordnet_synsets e word of
                  Inl err \<Rightarrow> word
                | Inr synsets \<Rightarrow>
                    if concat synsets = [] then word
                    else concat synsets ! (rng w 0 mod length (concat synsets)))"
    and "stdout_healthy (snd (replace_word_with_synonym e word w))"
    and "rng (snd (replace_word_with_synonym e word w)) =
           (case wordnet_synsets e word of
              Inl err \<Rightarrow> rng w
            | Inr synsets \<Rightarrow> if concat synsets = [] then rng w else (\<lambda>i. rng w (Suc i)))"
proof -
  show "fst (replace_word_with_synonym e word w) =
           Inr (case wordnet_synsets e word of
                  Inl err \<Rightarrow> word
                | Inr synsets \<Rightarrow>
                    if concat synsets = [] then word
                    else concat synsets ! (rng w 0 mod length (concat synsets)))"
  proof (cases "wordnet_synsets e word")
    case (Inl err)
    then show ?thesis
      using assms
      by (simp add: replace_word_with_synonym_failed print_and_return_healthy)
  next
    case (Inr synsets)
    then show ?thesis
      by (simp add: replace_word_with_synonym_found del: concat_eq_Nil_conv)
  qed
  show "stdout_healthy (snd (replace_word_with_synonym e word w))"
  proof (cases "wordnet_synsets e word")
    case (Inl err)
    then show ?thesis
      using assms
      by (simp add: replace_word_with_synonym_failed print_and_return_healthy)
  next
    case (Inr synsets)
    then show ?thesis
      using assms
      by (simp add: replace_word_with_synonym_found stdout_healthy_def
          del: concat_eq_Nil_conv)
  qed
  show "rng (snd (replace_word_with_synonym e word w)) =
           (case wordnet_synsets e word of
              Inl err \<Rightarrow> rng w
            | Inr synsets \<Rightarrow> if concat synsets = [] then rng w else (\<lambda>i. rng w (Suc i)))"
  proof (cases "wordnet_synsets e word")
    case (Inl err)
    then show ?thesis
      using assms
      by (simp add: replace_word_with_synonym_failed print_and_return_healthy)
  next
    case (Inr synsets)
    then show ?thesis
      by (simp add: replace_word_with_synonym_found del: concat_eq_Nil_conv)
  qed
qed

text \<open>
  Claim C2. When the lookup of a word yields a non-empty collection of lemma names,
  \<open>replace_word_with_synonym\<close> returns a member of that collection, the one
  \<open>random.choice\<close> picks; when the lookup yields an empty collection, it returns the word
  and changes nothing.
\<close>

theorem replace_word_with_synonym_member:
  "(wordnet_synsets e word = Inr synsets \<and> concat synsets \<noteq> [] \<longrightarrow>
      fst (replace_word_with_synonym e word w)
        = Inr (concat synsets ! (rng w 0 mod length (concat synsets)))
      \<and> concat synsets ! (rng w 0 mod length (concat synsets)) \<in> set (concat synsets))
   \<and> (wordnet_synsets e word = Inr synsets \<and> concat synsets = [] \<longrightarrow>
      replace_word_with_synonym e word w = (Inr word, w))"
proof (intro conjI impI)
  assume h: "wordnet_synsets e word = Inr synsets \<and> concat synsets \<noteq> []"
  then have len: "0 < length (concat synsets)"
    by blast
  from h show "fst (replace_word_with_synonym e word w)
      = Inr (concat synsets ! (rng w 0 mod length (concat synsets)))"
    by (simp add: replace_word_with_synonym_found del: concat_eq_Nil_conv)
  have "rng w 0 mod length (concat synsets) < length (concat synsets)"
    using len by (rule mod_less_divisor)
  then show "concat synsets ! (rng w 0 mod length (concat synsets)) \<in> set (concat synsets)"
    by (rule nth_mem)
next
  assume "wordnet_synsets e word = Inr synsets \<and> concat synsets = []"
  then show "replace_word_with_synonym e word w = (Inr word, w)"
    by (simp add: replace_word_with_synonym_found del: concat_eq_Nil_conv)
qed

theorem replace_word_with_synonym_member_witness:
  "wordnet_synsets demo_env (str_of ''happy'')
     = Inr [[str_of ''happy'', str_of ''felicitous''], [str_of ''glad'', str_of ''happy'']]
   \<and> fst (replace_word_with_synonym demo_env (str_of ''happy'') (demo_world\<lparr>rng := (\<lambda>i. 6)\<rparr>))
       = Inr (str_of ''glad'')
   \<and> wordnet_synsets demo_env (str_of ''the'') = Inr []
   \<and> replace_word_with_synonym demo_env (str_of ''the'') demo_world
       = (Inr (str_of ''the''), demo_world)"
proof -
  let ?synsets = "[[str_of ''happy'', str_of ''felicitous''], [str_of ''glad'', str_of ''happy'']]"
  let ?w = "demo_world\<lparr>rng := (\<lambda>i. 6)\<rparr>"
  have happy: "wordnet_synsets demo_env (str_of ''happy'') = Inr ?synsets"
    by (simp add: demo_env_def demo_synsets_def)
  have some: "concat ?synsets \<noteq> []"
    by simp
  have the: "wordnet_synsets demo_env (str_of ''the'') = Inr []"
    by (simp add: demo_env_def demo_synsets_def str_of_def)
  have "fst (replace_word_with_synonym demo_env (str_of ''happy'') ?w)
          = Inr (concat ?synsets ! (rng ?w 0 mod length (concat ?synsets)))"
    using replace_word_with_synonym_member [of demo_env "str_of ''happy''" ?synsets ?w]
      happy some by blast
  then have "fst (replace_word_with_synonym demo_env (str_of ''happy'') ?w)
               = Inr (str_of ''glad'')"
    by simp
  moreover have "replace_word_with_synonym demo_env (str_of ''the'') demo_world
                   = (Inr (str_of ''the''), demo_world)"
    using replace_word_with_synonym_member [of demo_env "str_of ''the''" "[]" demo_world] the
    by simp
  ultimately show ?thesis
    using happy the by simp
qed

section \<open>The augmentation pipeline without a probability\<close>

text \<open>
  With \<open>probability=None\<close> the ValueError of line 78 is raised inside the \<open>try\<close> of line 76
  and caught by the handler of line 113, which prints it and returns the empty list.
\<close>

lemma augment_none:
  "augment_text_with_synonyms e text augmentation_factor None progress w =
     print_and_return
       (TextAugmentationError (ValueError
          ''Probability value cannot be of NoneType. Choose a float from 0 to 1'')) [] w"
  by (simp add: augment_text_with_synonyms_def augment_try_def)

text \<open>
  Claim C1. The claim says that the configuration error reaches the caller. The code
  raises it and then swallows it: on the text \<open>the happy cat\<close> with factor 3 and
  \<open>probability=None\<close> the call returns the empty list as a normal value, the error being
  printed only, before any draw and any reading of the clock.
\<close>

theorem augment_none_is_swallowed:
  "augment_text_with_synonyms demo_env (str_of ''the happy cat'') 3 None True demo_world
     = (Inr [],
        demo_world\<lparr>stdout := [TextAugmentationError (ValueError
          ''Probability value cannot be of NoneType. Choose a float from 0 to 1'')]\<rparr>)"
  by (simp add: augment_none print_and_return_def print_def demo_world_def)

section \<open>Whitespace-delimited tokens\<close>

text \<open>
  What \<open>text.split()\<close> returns, said without it: a text is leading whitespace, then tokens
  (non-empty, free of whitespace) each followed by non-empty whitespace, then a last
  token that may be missing; the result is these tokens in order.
\<close>

lemma split_from_leading_space:
  assumes "list_all py_isspace lead"
  shows "split_from [] (lead @ rest) = split_from [] rest"
  using assms by (induction lead) simp_all

lemma split_from_token:
  assumes "list_all (\<lambda>c. \<not> py_isspace c) t"
  shows "split_from cur (t @ rest) = split_from (cur @ t) rest"
  using assms by (induction t arbitrary: cur) simp_all

lemma split_from_separator:
  assumes "cur \<noteq> []" and "s \<noteq> []" and "list_all py_isspace s"
  shows "split_from cur (s @ rest) = cur # split_from [] rest"
proof -
  obtain c s' where s: "s = c # s'"
    using assms(2) by (cases s) auto
  then have "py_isspace c" and "list_all py_isspace s'"
    using assms(3) by simp_all
  then show ?thesis
    using s assms(1) by (simp add: split_from_leading_space)
qed

lemma split_from_pairs:
  assumes "list_all (\<lambda>(t, s). t \<noteq> [] \<and> list_all (\<lambda>c. \<not> py_isspace c) t
                               \<and> s \<noteq> [] \<and> list_all py_isspace s) pairs"
    and "list_all (\<lambda>c. \<not> py_isspace c) final"
  shows "split_from [] (concat (map (\<lambda>(t, s). t @ s) pairs) @ final) =
           map fst pairs @ (if final = [] then [] else [final])"
  using assms(1)
proof (induction pairs)
  case Nil
  have "split_from [] (final @ []) = split_from ([] @ final) []"
    by (rule split_from_token [OF assms(2)])
  then show ?case
    by simp
next
  case (Cons pair pairs)
  obtain t s where pair: "pair = (t, s)"
    by (cases pair)
  let ?rest = "concat (map (\<lambda>(t, s). t @ s) pairs) @ final"
  have t: "t \<noteq> []" "list_all (\<lambda>c. \<not> py_isspace c) t" and s: "s \<noteq> []" "list_all py_isspace s"
    using Cons.prems pair by simp_all
  have "split_from [] (t @ s @ ?rest) = split_from ([] @ t) (s @ ?rest)"
    by (rule split_from_token [OF t(2)])
  also have "\<dots> = t # split_from [] ?rest"
    using split_from_separator [OF _ s, of t ?rest] t(1) by simp
  finally show ?case
    using Cons pair by simp
qed

lemma py_split_pairs:
  assumes "list_all py_isspace lead"
    and "list_all (\<lambda>(t, s). t \<noteq> [] \<and> list_all (\<lambda>c. \<not> py_isspace c) t
                               \<and> s \<noteq> [] \<and> list_all py_isspace s) pairs"
    and "list_all (\<lambda>c. \<not> py_isspace c) final"
  shows "py_split (lead @ concat (map (\<lambda>(t, s). t @ s) pairs) @ final) =
           map fst pairs @ (if final = [] then [] else [final])"
  unfolding py_split_def
  using split_from_leading_space [OF assms(1)] split_from_pairs [OF assms(2,3)]
  by simp

lemma py_split_empty: "py_split [] = []"
  by (simp add: py_split_def)

section \<open>Probability zero\<close>

lemma augment_tokens_zero:
  assumes "progress \<longrightarrow> stdout_healthy w"
  shows "fst (augment_tokens e 0 progress num_tokens start_time tokens augmented_tokens
                processed_tokens w)
           = Inr (augmented_tokens @ tokens, processed_tokens + length tokens)
         \<and> (progress \<longrightarrow>
              stdout_healthy (snd (augment_tokens e 0 progress num_tokens start_time tokens
                                     augmented_tokens processed_tokens w)))"
  using assms
proof (induction tokens arbitrary: augmented_tokens processed_tokens w)
  case Nil
  then show ?case by simp
next
  case (Cons token rest)
  let ?w1 = "snd (random_random w)"
  let ?w3 = "if progress
             then snd (report_progress (processed_tokens + 1) num_tokens start_time ?w1)
             else ?w1"
  have keep: "\<not> fst (random_random w) < 0"
    using random_random_nonneg [of w] by simp
  have w1: "progress \<longrightarrow> stdout_healthy ?w1"
    using Cons.prems by (simp add: random_random_world)
  have report: "progress \<longrightarrow>
                  fst (report_progress (processed_tokens + 1) num_tokens start_time ?w1) = Inr ()"
    using w1 by (simp add: report_progress_healthy)
  have w3: "progress \<longrightarrow> stdout_healthy ?w3"
    using w1 by (simp add: report_progress_healthy)
  have step: "augment_tokens e 0 progress num_tokens start_time (token # rest)
                augmented_tokens processed_tokens w
              = augment_tokens e 0 progress num_tokens start_time rest
                  (augmented_tokens @ [token]) (processed_tokens + 1) ?w3"
    using keep report by (cases progress) (simp_all add: case_prod_unfold)
  show ?case
    unfolding step using Cons.IH [OF w3, of "augmented_tokens @ [token]" "processed_tokens + 1"]
    by simp
qed

lemma augment_passes_zero:
  assumes "progress \<longrightarrow> stdout_healthy w"
  shows "fst (augment_passes e 0 progress tokens start_time k augmented_text
                processed_tokens w)
           = Inr (augmented_text @ replicate k (join_spaces tokens))
         \<and> (progress \<longrightarrow>
              stdout_healthy (snd (augment_passes e 0 progress tokens start_time k
                                     augmented_text processed_tokens w)))"
  using assms
proof (induction k arbitrary: augmented_text processed_tokens w)
  case 0
  then show ?case by simp
next
  case (Suc k)
  let ?a = "augment_tokens e 0 progress (length tokens) start_time tokens [] processed_tokens w"
  have a: "fst ?a = Inr (tokens, processed_tokens + length tokens)"
    and w1: "progress \<longrightarrow> stdout_healthy (snd ?a)"
    using augment_tokens_zero [OF Suc.prems, of e "length tokens" start_time tokens "[]"
        processed_tokens]
    by simp_all
  have step: "augment_passes e 0 progress tokens start_time (Suc k) augmented_text
                processed_tokens w
              = augment_passes e 0 progress tokens start_time k
                  (augmented_text @ [join_spaces tokens]) (processed_tokens + length tokens)
                  (snd ?a)"
    using a by (simp add: case_prod_unfold)
  show ?case
    unfolding step
    using Suc.IH [OF w1, of "augmented_text @ [join_spaces tokens]"
        "processed_tokens + length tokens"]
    by (simp add: replicate_app_Cons_same)
qed

lemma augment_zero:
  assumes "progress \<longrightarrow> stdout_healthy w"
  shows "fst (augment_text_with_synonyms e text augmentation_factor (Some 0) progress w) =
           Inr (replicate (nat augmentation_factor) (join_spaces (py_split text)))"
proof -
  let ?w1 = "snd (time_time w)"
  let ?p = "augment_passes e 0 progress (py_split text) (fst (time_time w))
              (nat augmentation_factor) [] 0 ?w1"
  have "progress \<longrightarrow> stdout_healthy ?w1"
    using assms by (simp add: time_time_def stdout_healthy_def)
  from augment_passes_zero [OF this]
  have p: "fst ?p = Inr (replicate (nat augmentation_factor) (join_spaces (py_split text)))"
    and w2: "progress \<longrightarrow> stdout_healthy (snd ?p)"
    by simp_all
  have clear: "progress \<longrightarrow> fst (print ClearProgressLine (snd ?p)) = Inr ()
                 \<and> stdout_healthy (snd (print ClearProgressLine (snd ?p)))"
    using w2 by (simp add: print_healthy)
  show ?thesis
    using p clear
    by (simp add: augment_text_with_synonyms_def augment_try_def case_prod_unfold Let_def
        print_and_return_healthy)
qed

text \<open>
  Claim C3, as amended. With probability 0, and with progress reporting off or a
  standard output on which no \<open>print\<close> raises, the pipeline returns as many copies of the
  whitespace-normalised text as the augmentation factor says (none for a negative
  factor, whose \<open>range\<close> is empty); no token is replaced. The normalised text is the join
  with single blanks of the tokens of \<open>text.split()\<close>, that is, of the whitespace-free
  pieces of the text in order.
\<close>

theorem augment_probability_zero:
  assumes "\<not> progress \<or> stdout_healthy w"
  shows "fst (augment_text_with_synonyms e text augmentation_factor (Some 0) progress w) =
           Inr (replicate (nat augmentation_factor) (join_spaces (py_split text)))
         \<and> (list_all py_isspace lead
              \<and> list_all (\<lambda>(t, s). t \<noteq> [] \<and> list_all (\<lambda>c. \<not> py_isspace c) t
                                     \<and> s \<noteq> [] \<and> list_all py_isspace s) pairs
              \<and> list_all (\<lambda>c. \<not> py_isspace c) final
              \<and> text = lead @ concat (map (\<lambda>(t, s). t @ s) pairs) @ final \<longrightarrow>
            fst (augment_text_with_synonyms e text augmentation_factor (Some 0) progress w) =
              Inr (replicate (nat augmentation_factor)
                     (join_spaces (map fst pairs @ (if final = [] then [] else [final])))))"
proof -
  have "progress \<longrightarrow> stdout_healthy w"
    using assms by blast
  then have result: "fst (augment_text_with_synonyms e text augmentation_factor (Some 0)
                            progress w) =
                       Inr (replicate (nat augmentation_factor) (join_spaces (py_split text)))"
    by (rule augment_zero)
  show ?thesis
  proof (intro conjI impI)
    show "fst (augment_text_with_synonyms e text augmentation_factor (Some 0) progress w) =
            Inr (replicate (nat augmentation_factor) (join_spaces (py_split text)))"
      by (rule result)
  next
    assume shape: "list_all py_isspace lead
              \<and> list_all (\<lambda>(t, s). t \<noteq> [] \<and> list_all (\<lambda>c. \<not> py_isspace c) t
                                     \<and> s \<noteq> [] \<and> list_all py_isspace s) pairs
              \<and> list_all (\<lambda>c. \<not> py_isspace c) final
              \<and> text = lead @ concat (map (\<lambda>(t, s). t @ s) pairs) @ final"
    then have lead: "list_all py_isspace lead"
      and pairs: "list_all (\<lambda>(t, s). t \<noteq> [] \<and> list_all (\<lambda>c. \<not> py_isspace c) t
                                     \<and> s \<noteq> [] \<and> list_all py_isspace s) pairs"
      and final: "list_all (\<lambda>c. \<not> py_isspace c) final"
      and decomposed: "text = lead @ concat (map (\<lambda>(t, s). t @ s) pairs) @ final"
      by blast+
    have "py_split text = map fst pairs @ (if final = [] then [] else [final])"
      unfolding decomposed by (rule py_split_pairs [OF lead pairs final])
    then show "fst (augment_text_with_synonyms e text augmentation_factor (Some 0) progress w) =
                 Inr (replicate (nat augmentation_factor)
                        (join_spaces (map fst pairs @ (if final = [] then [] else [final]))))"
      using result by (simp only:)
  qed
qed

text \<open>
  The claim as stated speaks of every call, and fails for some. With progress reporting on, which is the
  default, the progress line is printed inside the \<open>try\<close>: on a closed standard output
  the call with factor 1 raises the error of the handler's own \<open>print\<close>, and on an output
  that fails once it returns the empty list instead of one copy.
\<close>

theorem augment_probability_zero_counterexample:
  "fst (augment_text_with_synonyms demo_env (str_of ''the happy cat'') 1 (Some 0) True
          closed_stdout_world) = Inl (ValueError ''I/O operation on closed file'')
   \<and> fst (augment_text_with_synonyms demo_env (str_of ''the happy cat'') 1 (Some 0) True
            failing_once_world) = Inr []"
  by (simp add: augment_text_with_synonyms_def augment_try_def py_split_def py_isspace_def
      str_of_def time_time_def closed_stdout_world_def failing_once_world_def demo_world_def
      random_random_def next_draw_def report_progress_def print_def print_and_return_def)

theorem augment_probability_zero_witness:
  "stdout_healthy demo_world
   \<and> fst (augment_text_with_synonyms demo_env (str_of ''  the   happy cat '') 2 (Some 0) True
            demo_world) = Inr [str_of ''the happy cat'', str_of ''the happy cat'']
   \<and> fst (augment_text_with_synonyms demo_env (str_of ''  the   happy cat '') 2 (Some 0) False
            closed_stdout_world) = Inr [str_of ''the happy cat'', str_of ''the happy cat'']"
proof -
  let ?lead = "str_of ''  ''"
  let ?pairs = "[(str_of ''the'', str_of ''   ''), (str_of ''happy'', str_of '' ''),
                 (str_of ''cat'', str_of '' '')]"
  have healthy: "stdout_healthy demo_world"
    by (simp add: stdout_healthy_def demo_world_def)
  have shape: "list_all py_isspace ?lead
      \<and> list_all (\<lambda>(t, s). t \<noteq> [] \<and> list_all (\<lambda>c. \<not> py_isspace c) t
                             \<and> s \<noteq> [] \<and> list_all py_isspace s) ?pairs
      \<and> list_all (\<lambda>c. \<not> py_isspace c) []
      \<and> str_of ''  the   happy cat '' = ?lead @ concat (map (\<lambda>(t, s). t @ s) ?pairs) @ []"
    by (simp add: str_of_def py_isspace_def)
  have normalised: "replicate (nat 2) (join_spaces (map fst ?pairs @ (if [] = ([] :: pystr)
                      then [] else [[]])))
                    = [str_of ''the happy cat'', str_of ''the happy cat'']"
    by (simp add: str_of_def numeral_2_eq_2)
  have "fst (augment_text_with_synonyms demo_env (str_of ''  the   happy cat '') 2 (Some 0) True
               demo_world) = Inr [str_of ''the happy cat'', str_of ''the happy cat'']"
    using augment_probability_zero
            [of True demo_world demo_env "str_of ''  the   happy cat ''" 2 ?lead ?pairs "[]"]
          healthy shape
    unfolding normalised by blast
  moreover
  have "fst (augment_text_with_synonyms demo_env (str_of ''  the   happy cat '') 2 (Some 0) False
               closed_stdout_world) = Inr [str_of ''the happy cat'', str_of ''the happy cat'']"
    using augment_probability_zero
            [of False closed_stdout_world demo_env "str_of ''  the   happy cat ''" 2 ?lead ?pairs
               "[]"]
          shape
    unfolding normalised by blast
  ultimately show ?thesis
    using healthy by blast
qed

section \<open>Augmenting a file that cannot be read\<close>

lemma augment_passes_no_tokens:
  "augment_passes e p progress [] start_time k augmented_text processed_tokens w =
     (Inr (augmented_text @ replicate k []), w)"
  by (induction k arbitrary: augmented_text processed_tokens)
     (simp_all add: replicate_app_Cons_same)

lemma augment_empty_text:
  assumes "stdout_healthy w"
  shows "fst (augment_text_with_synonyms e [] augmentation_factor (Some p) progress w) =
           Inr (replicate (nat augmentation_factor) [])"
proof -
  have w1: "stdout_healthy (snd (time_time w))"
    using assms by (simp add: time_time_def stdout_healthy_def)
  then have "fst (print ClearProgressLine (snd (time_time w))) = Inr ()"
    and "stdout_healthy (snd (print ClearProgressLine (snd (time_time w))))"
    by (simp_all add: print_healthy)
  then show ?thesis
    by (simp add: augment_text_with_synonyms_def augment_try_def py_split_empty
        augment_passes_no_tokens case_prod_unfold print_and_return_healthy)
qed

text \<open>
  Claim C10, as amended. When reading the file raises and no \<open>print\<close> raises,
  \<open>load_text_file\<close> prints the error and gives the empty string, which has no tokens,
  and for every factor \<open>n\<close> and every probability other than \<open>None\<close>
  \<open>augment_file_with_synonyms\<close> returns a list of \<open>n\<close> empty strings.
\<close>

theorem augment_missing_file:
  assumes "read_file e file_path = Inl err" and "stdout_healthy w"
  shows "fst (augment_file_with_synonyms e file_path augmentation_factor (Some p) progress w) =
           Inr (replicate (nat augmentation_factor) [])"
proof -
  let ?l = "load_text_file e file_path w"
  have l: "fst ?l = Inr []" and w1: "stdout_healthy (snd ?l)"
    using assms by (simp_all add: load_text_file_def print_and_return_healthy)
  show ?thesis
    using l augment_empty_text [OF w1, of e augmentation_factor p progress]
    by (simp add: augment_file_with_synonyms_def case_prod_unfold split: sum.splits)
qed

theorem augment_missing_file_witness:
  "read_file demo_env (str_of ''missing.txt'') = Inl (OtherError ''No such file or directory'')
   \<and> stdout_healthy demo_world
   \<and> fst (augment_file_with_synonyms demo_env (str_of ''missing.txt'') 3 (Some (1 / 2)) True
            demo_world) = Inr [[], [], []]"
proof -
  have h: "read_file demo_env (str_of ''missing.txt'')
             = Inl (OtherError ''No such file or directory'')"
    by (simp add: demo_env_def str_of_def)
  have healthy: "stdout_healthy demo_world"
    by (simp add: stdout_healthy_def demo_world_def)
  show ?thesis
    using h healthy augment_missing_file [OF h healthy, of 3 "1 / 2" True]
    by (simp add: numeral_3_eq_3)
qed

text \<open>
  The claim as stated excludes an empty list and an error. The message that
  \<open>load_text_file\<close> prints in its handler can itself raise: on a closed standard output
  the error of the \<open>print\<close> in the handler of \<open>augment_file_with_synonyms\<close> reaches the
  caller, and on an output that cannot encode the loader's message that handler returns
  the empty list.
\<close>

theorem augment_missing_file_counterexample:
  "read_file demo_env (str_of ''missing.txt'') = Inl (OtherError ''No such file or directory'')
   \<and> fst (augment_file_with_synonyms demo_env (str_of ''missing.txt'') 3 (Some (1 / 2)) True
            closed_stdout_world) = Inl (ValueError ''I/O operation on closed file'')
   \<and> fst (augment_file_with_synonyms demo_env (str_of ''missing.txt'') 3 (Some (1 / 2)) True
            ascii_stdout_world) = Inr []"
  by (simp add: augment_file_with_synonyms_def load_text_file_def demo_env_def str_of_def
      print_and_return_def print_def closed_stdout_world_def ascii_stdout_world_def
      demo_world_def)

section \<open>Progress reporting and the result\<close>

text \<open>
  As long as no \<open>print\<close> raises, the value returned and the draws left over depend on the
  world only through its draws: the clock and what has been printed do not matter, nor
  does the progress flag.
\<close>

lemma random_random_same_draws:
  assumes "rng w = rng w'"
  shows "fst (random_random w) = fst (random_random w')"
    and "rng (snd (random_random w)) = rng (snd (random_random w'))"
  using assms by (simp_all add: random_random_def next_draw_def)

lemma replace_word_with_synonym_same_draws:
  assumes "rng w = rng w'" and "stdout_healthy w" and "stdout_healthy w'"
  shows "fst (replace_word_with_synonym e word w) = fst (replace_word_with_synonym e word w')"
    and "rng (snd (replace_word_with_synonym e word w))
           = rng (snd (replace_word_with_synonym e word w'))"
  using assms(1)
  by (simp_all add: replace_word_with_synonym_healthy [OF assms(2)]
      replace_word_with_synonym_healthy [OF assms(3)] split: sum.splits)

lemma augment_tokens_step:
  assumes "stdout_healthy w"
  shows "\<exists>t w3. augment_tokens e p progress num_tokens start_time (token # rest)
                   augmented_tokens processed_tokens w
                 = augment_tokens e p progress num_tokens start_time rest
                     (augmented_tokens @ [t]) (processed_tokens + 1) w3
               \<and> stdout_healthy w3
               \<and> (if fst (random_random w) < p
                   then fst (replace_word_with_synonym e token (snd (random_random w))) = Inr t
                        \<and> rng w3 = rng (snd (replace_word_with_synonym e token
                                               (snd (random_random w))))
                   else t = token \<and> rng w3 = rng (snd (random_random w)))"
proof -
  let ?w1 = "snd (random_random w)"
  let ?x = "if fst (random_random w) < p then replace_word_with_synonym e token ?w1
            else (Inr token, ?w1)"
  let ?w2 = "snd ?x"
  let ?y = "if progress then report_progress (processed_tokens + 1) num_tokens start_time ?w2
            else (Inr (), ?w2)"
  have w1: "stdout_healthy ?w1"
    using assms by (simp add: random_random_world)
  obtain t where t: "fst ?x = Inr t"
    using replace_word_with_synonym_healthy(1) [OF w1, of e token] by (cases "fst (random_random w) < p") simp_all
  have w2: "stdout_healthy ?w2"
    using w1 replace_word_with_synonym_healthy(2) [OF w1, of e token] by simp
  have y: "fst ?y = Inr ()" and w3: "stdout_healthy (snd ?y)" and draws: "rng (snd ?y) = rng ?w2"
    using w2 report_progress_healthy [OF w2, of "processed_tokens + 1" num_tokens start_time]
    by (cases progress; simp split del: if_split)+
  have "augment_tokens e p progress num_tokens start_time (token # rest)
          augmented_tokens processed_tokens w
        = augment_tokens e p progress num_tokens start_time rest
            (augmented_tokens @ [t]) (processed_tokens + 1) (snd ?y)"
    using t y by (simp add: case_prod_unfold split del: if_split cong: if_cong)
  moreover have "if fst (random_random w) < p
                 then fst (replace_word_with_synonym e token ?w1) = Inr t
                      \<and> rng (snd ?y) = rng (snd (replace_word_with_synonym e token ?w1))
                 else t = token \<and> rng (snd ?y) = rng ?w1"
    using t draws by (cases "fst (random_random w) < p") simp_all
  ultimately show ?thesis
    using w3 by blast
qed

lemma augment_tokens_same_draws:
  assumes "rng w = rng w'" and "stdout_healthy w" and "stdout_healthy w'"
  shows "\<exists>r. fst (augment_tokens e p progress num_tokens start_time tokens augmented_tokens
                    processed_tokens w) = Inr r
             \<and> fst (augment_tokens e p progress' num_tokens' start_time' tokens
                      augmented_tokens processed_tokens w') = Inr r
             \<and> rng (snd (augment_tokens e p progress num_tokens start_time tokens
                           augmented_tokens processed_tokens w))
               = rng (snd (augment_tokens e p progress' num_tokens' start_time' tokens
                             augmented_tokens processed_tokens w'))
             \<and> stdout_healthy (snd (augment_tokens e p progress num_tokens start_time tokens
                                      augmented_tokens processed_tokens w))
             \<and> stdout_healthy (snd (augment_tokens e p progress' num_tokens' start_time' tokens
                                      augmented_tokens processed_tokens w'))"
  using assms
proof (induction tokens arbitrary: augmented_tokens processed_tokens w w')
  case Nil
  then show ?case by simp
next
  case (Cons token rest)
  let ?w1 = "snd (random_random w)" and ?w1' = "snd (random_random w')"
  have r: "fst (random_random w') = fst (random_random w)"
    using random_random_same_draws(1) [OF Cons.prems(1)] by simp
  have w1: "rng ?w1 = rng ?w1'"
    by (rule random_random_same_draws(2) [OF Cons.prems(1)])
  have h1: "stdout_healthy ?w1" and h1': "stdout_healthy ?w1'"
    using Cons.prems by (simp_all add: random_random_world)
  have same: "fst (replace_word_with_synonym e token ?w1')
                = fst (replace_word_with_synonym e token ?w1)"
    and after: "rng (snd (replace_word_with_synonym e token ?w1'))
                  = rng (snd (replace_word_with_synonym e token ?w1))"
    using replace_word_with_synonym_same_draws [OF w1 h1 h1', of e token] by simp_all
  obtain t w3 where step: "augment_tokens e p progress num_tokens start_time (token # rest)
                             augmented_tokens processed_tokens w
                           = augment_tokens e p progress num_tokens start_time rest
                               (augmented_tokens @ [t]) (processed_tokens + 1) w3"
    and h3: "stdout_healthy w3"
    and t: "if fst (random_random w) < p
            then fst (replace_word_with_synonym e token ?w1) = Inr t
                 \<and> rng w3 = rng (snd (replace_word_with_synonym e token ?w1))
            else t = token \<and> rng w3 = rng ?w1"
    using augment_tokens_step [OF Cons.prems(2)] by blast
  obtain t' w3' where step': "augment_tokens e p progress' num_tokens' start_time'
                                (token # rest) augmented_tokens processed_tokens w'
                              = augment_tokens e p progress' num_tokens' start_time' rest
                                  (augmented_tokens @ [t']) (processed_tokens + 1) w3'"
    and h3': "stdout_healthy w3'"
    and t': "if fst (random_random w') < p
             then fst (replace_word_with_synonym e token ?w1') = Inr t'
                  \<and> rng w3' = rng (snd (replace_word_with_synonym e token ?w1'))
             else t' = token \<and> rng w3' = rng ?w1'"
    using augment_tokens_step [OF Cons.prems(3)] by blast
  have "t' = t" and "rng w3 = rng w3'"
    using t t' r same after w1 by (cases "fst (random_random w) < p"; simp)+
  then show ?case
    unfolding step step' using Cons.IH [OF _ h3 h3'] by simp
qed

lemma augment_passes_same_draws:
  assumes "rng w = rng w'" and "stdout_healthy w" and "stdout_healthy w'"
  shows "\<exists>r. fst (augment_passes e p progress tokens start_time k augmented_text
                    processed_tokens w) = Inr r
             \<and> fst (augment_passes e p progress' tokens start_time' k augmented_text
                      processed_tokens w') = Inr r
             \<and> stdout_healthy (snd (augment_passes e p progress tokens start_time k
                                      augmented_text processed_tokens w))
             \<and> stdout_healthy (snd (augment_passes e p progress' tokens start_time' k
                                      augmented_text processed_tokens w'))"
  using assms
proof (induction k arbitrary: augmented_text processed_tokens w w')
  case 0
  then show ?case by simp
next
  case (Suc k)
  let ?a = "augment_tokens e p progress (length tokens) start_time tokens [] processed_tokens w"
  let ?a' = "augment_tokens e p progress' (length tokens) start_time' tokens []
               processed_tokens w'"
  obtain r where a: "fst ?a = Inr r" and a': "fst ?a' = Inr r"
    and draws: "rng (snd ?a) = rng (snd ?a')"
    and h: "stdout_healthy (snd ?a)" and h': "stdout_healthy (snd ?a')"
    using augment_tokens_same_draws [OF Suc.prems] by blast
  obtain ts n where r: "r = (ts, n)"
    by (cases r)
  have step: "augment_passes e p progress tokens start_time (Suc k) augmented_text
                processed_tokens w
              = augment_passes e p progress tokens start_time k
                  (augmented_text @ [join_spaces ts]) n (snd ?a)"
    using a r by (simp add: case_prod_unfold)
  have step': "augment_passes e p progress' tokens start_time' (Suc k) augmented_text
                 processed_tokens w'
               = augment_passes e p progress' tokens start_time' k
                   (augmented_text @ [join_spaces ts]) n (snd ?a')"
    using a' r by (simp add: case_prod_unfold)
  show ?case
    unfolding step step' by (rule Suc.IH [OF draws h h'])
qed

text \<open>
  Claim C8, as amended. Two runs of \<open>augment_text_with_synonyms\<close> on the same text, factor
  and probability that start from the same random draws, on standard outputs on which no
  \<open>print\<close> raises, return the same value, one with the progress flag set and the other
  without, whatever their clocks and earlier output; and that value is returned normally.
\<close>

theorem progress_flag_keeps_result:
  assumes "rng w = rng w'" and "stdout_healthy w" and "stdout_healthy w'"
  shows "fst (augment_text_with_synonyms e text augmentation_factor probability True w)
           = fst (augment_text_with_synonyms e text augmentation_factor probability False w')
         \<and> (\<exists>augmented_text.
               fst (augment_text_with_synonyms e text augmentation_factor probability True w)
                 = Inr augmented_text)"
proof (cases probability)
  case None
  then show ?thesis
    using assms by (simp add: augment_none print_and_return_healthy)
next
  case (Some p)
  let ?w1 = "snd (time_time w)" and ?w1' = "snd (time_time w')"
  let ?run = "augment_passes e p True (py_split text) (fst (time_time w))
                (nat augmentation_factor) [] 0 ?w1"
  let ?run' = "augment_passes e p False (py_split text) (fst (time_time w'))
                 (nat augmentation_factor) [] 0 ?w1'"
  have "rng ?w1 = rng ?w1'" and "stdout_healthy ?w1" and "stdout_healthy ?w1'"
    using assms by (simp_all add: time_time_def stdout_healthy_def)
  from augment_passes_same_draws [OF this]
  obtain r where run: "fst ?run = Inr r" and run': "fst ?run' = Inr r"
    and h: "stdout_healthy (snd ?run)"
    by blast
  have "fst (print ClearProgressLine (snd ?run)) = Inr ()"
    and "stdout_healthy (snd (print ClearProgressLine (snd ?run)))"
    using h by (simp_all add: print_healthy)
  then show ?thesis
    using Some run run'
    by (simp add: augment_text_with_synonyms_def augment_try_def case_prod_unfold Let_def
        print_and_return_healthy)
qed

text \<open>
  The claim as stated says that the flag never alters the returned value. The progress
  lines are printed inside the \<open>try\<close> of line 76, so a \<open>print\<close> that raises alters it: from
  the same draws, on a closed standard output the run with the flag raises and on an
  output that fails once it returns the empty list, while the run without the flag
  prints nothing and returns the augmented text.
\<close>

theorem progress_flag_keeps_result_counterexample:
  "fst (augment_text_with_synonyms demo_env (str_of ''the happy cat'') 1 (Some (1 / 2)) True
          closed_stdout_world) = Inl (ValueError ''I/O operation on closed file'')
   \<and> fst (augment_text_with_synonyms demo_env (str_of ''the happy cat'') 1 (Some (1 / 2)) True
            failing_once_world) = Inr []
   \<and> fst (augment_text_with_synonyms demo_env (str_of ''the happy cat'') 1 (Some (1 / 2)) False
            closed_stdout_world) = Inr [str_of ''the glad cat'']
   \<and> fst (augment_text_with_synonyms demo_env (str_of ''the happy cat'') 1 (Some (1 / 2)) False
            failing_once_world) = Inr [str_of ''the glad cat'']"
  by (simp add: augment_text_with_synonyms_def augment_try_def py_split_def str_of_def
        py_isspace_def time_time_def closed_stdout_world_def failing_once_world_def
        demo_world_def demo_env_def random_random_def next_draw_def report_progress_def
        print_def print_and_return_def replace_word_with_synonym_def demo_synsets_def
        random_choice_def numeral_2_eq_2 [symmetric])

theorem progress_flag_keeps_result_witness:
  "rng demo_world = rng (demo_world\<lparr>clock := (\<lambda>i. 7), stdout := [ClearProgressLine]\<rparr>)
   \<and> stdout_healthy demo_world
   \<and> stdout_healthy (demo_world\<lparr>clock := (\<lambda>i. 7), stdout := [ClearProgressLine]\<rparr>)
   \<and> fst (augment_text_with_synonyms demo_env (str_of ''the happy cat'') 1 (Some (1 / 2)) True
            demo_world)
     = fst (augment_text_with_synonyms demo_env (str_of ''the happy cat'') 1 (Some (1 / 2)) False
              (demo_world\<lparr>clock := (\<lambda>i. 7), stdout := [ClearProgressLine]\<rparr>))
   \<and> fst (augment_text_with_synonyms demo_env (str_of ''the happy cat'') 1 (Some (1 / 2)) False
            (demo_world\<lparr>clock := (\<lambda>i. 7), stdout := [ClearProgressLine]\<rparr>))
     = Inr [str_of ''the glad cat'']"
proof -
  let ?w' = "demo_world\<lparr>clock := (\<lambda>i. 7), stdout := [ClearProgressLine]\<rparr>"
  have same: "rng demo_world = rng ?w'"
    by simp
  have healthy: "stdout_healthy demo_world" and healthy': "stdout_healthy ?w'"
    by (simp_all add: stdout_healthy_def demo_world_def)
  have "fst (augment_text_with_synonyms demo_env (str_of ''the happy cat'') 1 (Some (1 / 2))
               False ?w') = Inr [str_of ''the glad cat'']"
    by (simp add: augment_text_with_synonyms_def augment_try_def py_split_def str_of_def
        py_isspace_def time_time_def demo_world_def demo_env_def random_random_def next_draw_def
        replace_word_with_synonym_def demo_synsets_def random_choice_def
        numeral_2_eq_2 [symmetric])
  with same healthy healthy'
    progress_flag_keeps_result [OF same healthy healthy', of demo_env "str_of ''the happy cat''" 1
      "Some (1 / 2)"]
  show ?thesis
    by simp
qed

section \<open>Deleting a random word\<close>

lemma random_randint_in_range:
  assumes "a \<le> b"
  shows "random_randint a b w =
           (Inr (a + int (rng w 0 mod nat (b - a + 1))), w\<lparr>rng := (\<lambda>i. rng w (Suc i))\<rparr>)"
  using assms by (simp add: random_randint_def next_draw_def)


text \<open>
  \<open>random.randint\<close> is even over its range: of the raw draws below any multiple \<open>m\<close> of the
  size of the range, exactly \<open>m\<close> lead to each value of the range.
\<close>

lemma residue_class_card:
  assumes "k < n"
  shows "card {d. d < m * n \<and> d mod n = k} = m"
proof -
  have "{d. d < m * n \<and> d mod n = k} = (\<lambda>q. q * n + k) ` {..<m}"
  proof (intro set_eqI iffI)
    fix d
    assume "d \<in> {d. d < m * n \<and> d mod n = k}"
    then have small: "d < m * n" and residue: "d mod n = k"
      by simp_all
    have "d div n < m"
      using small assms by (simp add: less_mult_imp_div_less)
    moreover have "d = (d div n) * n + k"
      using residue by (metis div_mult_mod_eq)
    ultimately show "d \<in> (\<lambda>q. q * n + k) ` {..<m}"
      by blast
  next
    fix d
    assume "d \<in> (\<lambda>q. q * n + k) ` {..<m}"
    then obtain q where q: "q < m" and d: "d = q * n + k"
      by auto
    have "q * n + k < Suc q * n"
      using assms by simp
    also have "\<dots> \<le> m * n"
      using q by (intro mult_le_mono1) simp
    finally have "d < m * n"
      using d by simp
    moreover have "d mod n = k"
      using d assms by simp
    ultimately show "d \<in> {d. d < m * n \<and> d mod n = k}"
      by simp
  qed
  moreover have "inj_on (\<lambda>q. q * n + k) {..<m}"
    using assms by (intro inj_onI) simp
  ultimately show ?thesis
    by (simp add: card_image)
qed

lemma random_randint_uniform:
  assumes "a \<le> r" and "r \<le> b"
  shows "card {d. d < m * nat (b - a + 1)
                \<and> fst (random_randint a b (w\<lparr>rng := (\<lambda>i. d)\<rparr>)) = Inr r} = m"
proof -
  let ?n = "nat (b - a + 1)"
  have range: "a \<le> b"
    using assms by simp
  have less: "nat (r - a) < ?n"
    using assms by simp
  have "fst (random_randint a b (w\<lparr>rng := (\<lambda>i. d)\<rparr>)) = Inr r \<longleftrightarrow> d mod ?n = nat (r - a)"
    for d
    using assms range by (auto simp add: random_randint_def next_draw_def)
  then have "{d. d < m * ?n \<and> fst (random_randint a b (w\<lparr>rng := (\<lambda>i. d)\<rparr>)) = Inr r}
               = {d. d < m * ?n \<and> d mod ?n = nat (r - a)}"
    by simp
  then show ?thesis
    using residue_class_card [OF less, of m] by simp
qed

lemma list_pop_in_range:
  assumes "i < length xs"
  shows "list_pop xs (int i) = Inr (take i xs @ drop (Suc i) xs)"
  using assms by (simp add: list_pop_def)

lemma delete_random_word_many:
  assumes "word_tokenize e text = Inr words" and "1 < length words"
  shows "delete_random_word e text w =
           (Inr (join_spaces (take (rng w 0 mod length words) words
                              @ drop (Suc (rng w 0 mod length words)) words)),
            w\<lparr>rng := (\<lambda>i. rng w (Suc i))\<rparr>)"
proof -
  let ?n = "length words"
  let ?i = "rng w 0 mod ?n"
  have range: "(0::int) \<le> int ?n - 1"
    using assms(2) by linarith
  have "nat (int ?n - 1 - 0 + 1) = ?n"
    by simp
  then have draw: "random_randint 0 (int ?n - 1) w =
                     (Inr (int ?i), w\<lparr>rng := (\<lambda>i. rng w (Suc i))\<rparr>)"
    using random_randint_in_range [OF range, of w] by simp
  have "?i < ?n"
    using assms(2) by (intro mod_less_divisor) auto
  then have pop: "list_pop words (int ?i) = Inr (take ?i words @ drop (Suc ?i) words)"
    by (rule list_pop_in_range)
  show ?thesis
    using assms draw pop by (simp add: delete_random_word_def)
qed

text \<open>
  Claim C4, as amended. Let the tokenizer return \<open>words\<close> for the text. With no token
  \<open>delete_random_word\<close> returns the empty string and with a single token it returns that
  token, in both cases without drawing. With more than one token it pops the token at
  index \<open>random.randint(0, len(words) - 1)\<close>, the raw draw modulo the number of tokens,
  and returns the remaining tokens, one fewer, joined with single blanks. The choice is
  even: of the raw draws below any multiple \<open>m\<close> of the number of tokens, exactly \<open>m\<close> pick
  each position.
\<close>

theorem delete_random_word_tokens:
  assumes "word_tokenize e text = Inr words"
  shows "(words = [] \<longrightarrow> delete_random_word e text w = (Inr [], w))
       \<and> (words = [t] \<longrightarrow> delete_random_word e text w = (Inr t, w))
       \<and> (1 < length words \<longrightarrow>
            rng w 0 mod length words < length words
            \<and> fst (delete_random_word e text w) =
                Inr (join_spaces (take (rng w 0 mod length words) words
                                  @ drop (Suc (rng w 0 mod length words)) words))
            \<and> length (take (rng w 0 mod length words) words
                       @ drop (Suc (rng w 0 mod length words)) words) = length words - 1
            \<and> (\<forall>k m. k < length words \<longrightarrow>
                  card {d. d < m * length words
                           \<and> fst (random_randint 0 (int (length words) - 1)
                                   (w\<lparr>rng := (\<lambda>i. d)\<rparr>)) = Inr (int k)} = m))"
proof (intro conjI impI allI)
  assume "words = []"
  then show "delete_random_word e text w = (Inr [], w)"
    using assms by (simp add: delete_random_word_def)
next
  assume "words = [t]"
  then show "delete_random_word e text w = (Inr t, w)"
    using assms by (simp add: delete_random_word_def)
next
  assume many: "1 < length words"
  then show less: "rng w 0 mod length words < length words"
    by (intro mod_less_divisor) auto
  show "fst (delete_random_word e text w) =
          Inr (join_spaces (take (rng w 0 mod length words) words
                            @ drop (Suc (rng w 0 mod length words)) words))"
    using delete_random_word_many [OF assms many, of w] by simp
  show "length (take (rng w 0 mod length words) words
                @ drop (Suc (rng w 0 mod length words)) words) = length words - 1"
    using less by simp
next
  fix k m
  assume k: "k < length words"
  then have "(0::int) \<le> int k" and "int k \<le> int (length words) - 1"
    by simp_all
  from random_randint_uniform [OF this, of m w]
  show "card {d. d < m * length words
                 \<and> fst (random_randint 0 (int (length words) - 1)
                         (w\<lparr>rng := (\<lambda>i. d)\<rparr>)) = Inr (int k)} = m"
    by simp
qed

text \<open>
  The claim as stated says that a text of at most one token is returned unchanged. The
  text \<open>" a"\<close>, a blank and a letter, has the single token \<open>"a"\<close>, and the call returns
  \<open>"a"\<close>, not the text.
\<close>

theorem delete_random_word_counterexample:
  "word_tokenize demo_env (str_of '' a'') = Inr [str_of ''a'']
   \<and> fst (delete_random_word demo_env (str_of '' a'') demo_world) = Inr (str_of ''a'')
   \<and> str_of ''a'' \<noteq> str_of '' a''"
  by (simp add: delete_random_word_def demo_env_def py_split_def py_isspace_def str_of_def)

theorem delete_random_word_tokens_witness:
  "word_tokenize demo_env (str_of ''the happy cat'')
     = Inr [str_of ''the'', str_of ''happy'', str_of ''cat'']
   \<and> fst (delete_random_word demo_env (str_of ''the happy cat'') (demo_world\<lparr>rng := (\<lambda>i. 4)\<rparr>))
       = Inr (str_of ''the cat'')
   \<and> word_tokenize demo_env (str_of ''cat'') = Inr [str_of ''cat'']
   \<and> delete_random_word demo_env (str_of ''cat'') demo_world
       = (Inr (str_of ''cat''), demo_world)"
proof -
  let ?words = "[str_of ''the'', str_of ''happy'', str_of ''cat'']"
  let ?w = "demo_world\<lparr>rng := (\<lambda>i. 4)\<rparr>"
  have three: "word_tokenize demo_env (str_of ''the happy cat'') = Inr ?words"
    by (simp add: demo_env_def py_split_def py_isspace_def str_of_def)
  have one: "word_tokenize demo_env (str_of ''cat'') = Inr [str_of ''cat'']"
    by (simp add: demo_env_def py_split_def py_isspace_def str_of_def)
  have "fst (delete_random_word demo_env (str_of ''the happy cat'') ?w)
          = Inr (str_of ''the cat'')"
    using delete_random_word_tokens [OF three, where t = "[]" and w = ?w]
    by (simp add: str_of_def)
  moreover have "delete_random_word demo_env (str_of ''cat'') demo_world
                   = (Inr (str_of ''cat''), demo_world)"
    using delete_random_word_tokens [OF one, where t = "str_of ''cat''" and w = demo_world]
    by simp
  ultimately show ?thesis
    using three one by simp
qed

section \<open>Random crop\<close>




section \<open>The paraphraser\<close>






section \<open>Synonym insertion\<close>










section \<open>Shuffling always raises\<close>

text \<open>
  Claim C9. For every list of sentences, the empty one included, \<open>shuffle_words\<close> raises
  TypeError at line 366, where the module object \<open>tqdm\<close> is called; nothing is drawn or
  printed and no shuffled list is returned.
\<close>

theorem shuffle_words_raises:
  "shuffle_words text w = (Inl (TypeError ''module object is not callable''), w)"
  by (simp add: shuffle_words_def tqdm_def)

end
